theory Spec2Isabelle
  imports Complex_Main "HOL-Library.Signed_Division"
begin

section \<open>Values of the host language\<close>

text \<open>
  The module \<^verbatim>\<open>purview-wrapper.ts\<close> is glue over an HTTP client. Its functions are
  embedded as HOL functions over an explicit \<open>world\<close>: the process environment, the
  random source behind \<^verbatim>\<open>Math.random\<close>, the wall clock behind \<^verbatim>\<open>new Date()\<close>, the
  transport behind \<^verbatim>\<open>fetch\<close> and the list of requests handed to it so far. A thrown
  value is the left summand of the result.

  JavaScript strings are \<open>string\<close>; a \<^verbatim>\<open>number\<close> that holds a sequence number, a status
  code or a time value is an \<open>int\<close> or a \<open>nat\<close>. The digits, status codes and time
  values stay far inside the range where doubles are exact; the sequence number is the
  caller's, so \<^verbatim>\<open>sequenceNo + 1\<close> is the rounding double addition \<open>number_add\<close>, which
  is the integer sum up to \<open>2 ^ 53\<close>. The result of \<^verbatim>\<open>Math.random()\<close> is a
  rational, which the language promises to lie from 0 up to but excluding 1 (a
  hypothesis wherever it matters; multiplying a double by 16 is exact). Calls of the logging sink (\<^verbatim>\<open>context.log\<close>, \<^verbatim>\<open>console.error\<close>) change neither
  a result nor a request and are left out, and with them the \<^verbatim>\<open>context\<close> parameter.
\<close>

datatype json =
    JNull
  | JBool bool
  | JNumber int
  | JString string
  | JArray "json list"
  | JObject "(string \<times> json) list"

datatype js_error =
    Error string
  | FetchError string
  | SyntaxError string

record request =
  url :: string
  http_method :: string
  headers :: "(string \<times> string) list"
  body :: "json option"

record response =
  status :: nat
  response_headers :: "(string \<times> string) list"
  body_text :: string

record world =
  PURVIEW_BASE_URL :: "string option"
  GRAPH_BASE_URL :: "string option"
  random_draws :: "nat \<Rightarrow> rat"
  drawn :: nat
  clock :: "nat \<Rightarrow> int"
  clock_reads :: nat
  transport :: "nat \<Rightarrow> request \<Rightarrow> js_error + response"
  requests :: "request list"
  json_parse :: "string \<Rightarrow> js_error + json"

text \<open>
  \<open>random_draws w i\<close> is what the \<open>i\<close>-th call of \<^verbatim>\<open>Math.random()\<close> returns and
  \<open>clock w i\<close> the time value (milliseconds since the epoch) the \<open>i\<close>-th \<^verbatim>\<open>new Date()\<close>
  reads; \<open>transport w n r\<close> is the outcome of the \<open>n\<close>-th \<^verbatim>\<open>fetch\<close> when it is handed
  the request \<open>r\<close>: a rejection or a response. The request body is carried as the
  document that the source hands to \<^verbatim>\<open>JSON.stringify\<close>; \<open>json_parse\<close> stands for the
  parser behind \<^verbatim>\<open>response.json()\<close>.
\<close>

definition Math_random :: "world \<Rightarrow> rat \<times> world" where
  "Math_random w = (random_draws w (drawn w), w\<lparr>drawn := Suc (drawn w)\<rparr>)"

definition Math_trunc :: "rat \<Rightarrow> int" where
  "Math_trunc x = (if 0 \<le> x then \<lfloor>x\<rfloor> else \<lceil>x\<rceil>)"

definition new_Date :: "world \<Rightarrow> int \<times> world" where
  "new_Date w = (clock w (clock_reads w), w\<lparr>clock_reads := Suc (clock_reads w)\<rparr>)"

definition digit_char :: "nat \<Rightarrow> char" where
  "digit_char d = ''0123456789abcdefghijklmnopqrstuvwxyz'' ! (d mod 36)"

function radix_digits :: "nat \<Rightarrow> nat \<Rightarrow> string" where
  "radix_digits b n =
     (if b < 2 \<or> n < b then [digit_char n]
      else radix_digits b (n div b) @ [digit_char (n mod b)])"
  by pat_completeness auto
termination
  by (relation "measure (\<lambda>(b, n). n)") auto

declare radix_digits.simps [simp del]

text \<open>
  \<^verbatim>\<open>Number.prototype.toString(radix)\<close> on an integral number; the module calls it
  with the radix 16 and, inside template strings, with the default radix 10.
\<close>

definition Number_toString :: "nat \<Rightarrow> int \<Rightarrow> string" where
  "Number_toString radix n =
     (if n < 0 then CHR ''-'' # radix_digits radix (nat (- n))
      else radix_digits radix (nat n))"

text \<open>\<^verbatim>\<open>String.prototype.padStart(k, '0')\<close>.\<close>

definition padStart0 :: "nat \<Rightarrow> string \<Rightarrow> string" where
  "padStart0 k s = replicate (k - length s) CHR ''0'' @ s"

text \<open>
  Addition of two numbers that hold integers. A double holds every integer up to
  \<open>2 ^ 53\<close> in magnitude; beyond that it has 53 significant bits, and the sum is the
  exact sum rounded to the nearest such value, a tie going to the even significand.
  (The largest integers a double holds are far from overflowing when 1 is added.)
\<close>

function bit_length :: "nat \<Rightarrow> nat" where
  "bit_length n = (if n = 0 then 0 else Suc (bit_length (n div 2)))"
  by pat_completeness auto
termination
  by (relation "measure id") auto

declare bit_length.simps [simp del]

definition round_to_double :: "int \<Rightarrow> int" where
  "round_to_double x =
     (if \<bar>x\<bar> \<le> 2 ^ 53 then x
      else
        let k = bit_length (nat \<bar>x\<bar>) - 53;
            q = \<bar>x\<bar> div 2 ^ k;
            r = \<bar>x\<bar> mod 2 ^ k;
            q' = (if 2 ^ (k - 1) < r \<or> (r = 2 ^ (k - 1) \<and> odd q) then q + 1 else q)
        in sgn x * (q' * 2 ^ k))"

definition number_add :: "int \<Rightarrow> int \<Rightarrow> int" where
  "number_add a b = round_to_double (a + b)"

section \<open>The identifier generator\<close>

text \<open>
  The \<^verbatim>\<open>for (const char of template)\<close> loop of \<^verbatim>\<open>generateGuid\<close>, with the string built
  so far and the world as loop state. \<^verbatim>\<open>%\<close> is the truncating remainder \<open>smod\<close>.
\<close>

fun generateGuid_loop :: "string \<Rightarrow> string \<Rightarrow> world \<Rightarrow> string \<times> world" where
  "generateGuid_loop [] guid w = (guid, w)"
| "generateGuid_loop (char # rest) guid w =
     (if char = CHR ''x'' then
        (let (x, w1) = Math_random w;
             r = Math_trunc (x * 16)
         in generateGuid_loop rest (guid @ Number_toString 16 r) w1)
      else if char = CHR ''y'' then
        (let (x, w1) = Math_random w;
             r = (Math_trunc (x * 16) smod 4) + 8
         in generateGuid_loop rest (guid @ Number_toString 16 r) w1)
      else generateGuid_loop rest (guid @ [char]) w)"

definition generateGuid :: "world \<Rightarrow> string \<times> world" where
  "generateGuid w = generateGuid_loop ''xxxxxxxx-xxxx-4xxx-yxxx-xxxxxxxxxxxx'' [] w"

section \<open>The payload builder\<close>

text \<open>
  \<^verbatim>\<open>Date.prototype.toISOString\<close> on a time value \<open>t\<close> in milliseconds since the epoch:
  the day number is turned into a proleptic Gregorian date, the year is written with
  four digits from 0 to 9999 and with a sign and six digits otherwise.
\<close>

definition civil_from_days :: "int \<Rightarrow> int \<times> int \<times> int" where
  "civil_from_days days =
     (let z = days + 719468;
          era = z div 146097;
          doe = z - era * 146097;
          yoe = (doe - doe div 1460 + doe div 36524 - doe div 146096) div 365;
          doy = doe - (365 * yoe + yoe div 4 - yoe div 100);
          mp = (5 * doy + 2) div 153;
          d = doy - (153 * mp + 2) div 5 + 1;
          m = (if mp < 10 then mp + 3 else mp - 9);
          y = yoe + era * 400 + (if m \<le> 2 then 1 else 0)
      in (y, m, d))"

definition pad_int :: "nat \<Rightarrow> int \<Rightarrow> string" where
  "pad_int k n = padStart0 k (Number_toString 10 n)"

definition toISOString :: "int \<Rightarrow> string" where
  "toISOString t =
     (let days = t div 86400000;
          ms = t mod 86400000;
          (y, m, d) = civil_from_days days;
          year = (if 0 \<le> y \<and> y \<le> 9999 then pad_int 4 y
                  else (if y < 0 then CHR ''-'' else CHR ''+'') # pad_int 6 \<bar>y\<bar>)
      in year @ ''-'' @ pad_int 2 m @ ''-'' @ pad_int 2 d @ ''T''
         @ pad_int 2 (ms div 3600000) @ '':'' @ pad_int 2 (ms div 60000 mod 60) @ '':''
         @ pad_int 2 (ms div 1000 mod 60) @ ''.'' @ pad_int 3 (ms mod 1000) @ ''Z'')"

text \<open>
  The object literal of \<^verbatim>\<open>constructProcessContentRequestBody\<close>. Its property values are
  evaluated in source order: the identifier first, then the two \<^verbatim>\<open>new Date()\<close>, each a
  clock reading of its own.
\<close>

definition constructProcessContentRequestBody ::
  "string \<Rightarrow> string \<Rightarrow> int \<Rightarrow> string \<Rightarrow> string \<Rightarrow> string \<Rightarrow> world \<Rightarrow> json \<times> world" where
  "constructProcessContentRequestBody contentData name sequenceNo correlationId activity
       applicationId w =
     (let (identifier, w1) = generateGuid w;
          (created, w2) = new_Date w1;
          (modified, w3) = new_Date w2
      in (JObject
           [(''contentToProcess'', JObject
              [(''contentEntries'', JArray
                 [JObject
                    [(''@odata.type'', JString ''microsoft.graph.processConversationMetadata''),
                     (''identifier'', JString identifier),
                     (''content'', JObject
                        [(''@odata.type'', JString ''microsoft.graph.textContent''),
                         (''data'', JString contentData)]),
                     (''name'', JString name),
                     (''correlationId'', JString correlationId),
                     (''sequenceNumber'', JNumber sequenceNo),
                     (''isTruncated'', JBool False),
                     (''createdDateTime'', JString (toISOString created)),
                     (''modifiedDateTime'', JString (toISOString modified))]]),
               (''activityMetadata'', JObject [(''activity'', JString activity)]),
               (''deviceMetadata'', JObject
                  [(''deviceType'', JString ''managed''),
                   (''operatingSystemSpecifications'', JObject
                      [(''operatingSystemPlatform'', JString ''Windows 11''),
                       (''operatingSystemVersion'', JString ''10.0.26100.0'')])]),
               (''protectedAppMetadata'', JObject
                  [(''name'', JString name),
                   (''version'', JString ''1.0''),
                   (''applicationLocation'', JObject
                      [(''@odata.type'', JString ''microsoft.graph.policyLocationApplication''),
                       (''value'', JString applicationId)])]),
               (''integratedAppMetadata'', JObject
                  [(''name'', JString name), (''version'', JString ''1.0'')])])],
          w3))"

text \<open>
  Reading a document: \<open>Key k\<close> is the property access \<^verbatim>\<open>.k\<close> and \<open>Idx i\<close> the index
  access \<^verbatim>\<open>[i]\<close>; a path that leaves the document yields \<open>None\<close> (JavaScript's
  \<^verbatim>\<open>undefined\<close>, or the \<^verbatim>\<open>TypeError\<close> of reading through it).
\<close>

datatype step = Key string | Idx nat

fun json_step :: "step \<Rightarrow> json \<Rightarrow> json option" where
  "json_step (Key k) (JObject kvs) = map_of kvs k"
| "json_step (Idx i) (JArray js) = (if i < length js then Some (js ! i) else None)"
| "json_step _ _ = None"

fun json_at :: "step list \<Rightarrow> json \<Rightarrow> json option" where
  "json_at [] j = Some j"
| "json_at (s # ss) j = (case json_step s j of None \<Rightarrow> None | Some j' \<Rightarrow> json_at ss j')"

section \<open>The HTTP clients\<close>

text \<open>
  \<^verbatim>\<open>s.replace(/\/+$/, '')\<close> replaces the leftmost match of one or more \<open>/\<close> followed
  by the end of the input: the first position from which only \<open>/\<close> follow. Nothing
  matches when there is no such position. \<^verbatim>\<open>s.replace(/^\/+/, '')\<close> removes the \<open>/\<close>
  the string starts with.
\<close>

fun replace_trailing_slashes :: "string \<Rightarrow> string" where
  "replace_trailing_slashes [] = []"
| "replace_trailing_slashes (c # cs) =
     (if c = CHR ''/'' \<and> list_all (\<lambda>d. d = CHR ''/'') cs then []
      else c # replace_trailing_slashes cs)"

definition replace_leading_slashes :: "string \<Rightarrow> string" where
  "replace_leading_slashes s = dropWhile (\<lambda>c. c = CHR ''/'') s"

text \<open>
  \<^verbatim>\<open>fetch\<close> hands the request to the transport, which answers or rejects; either way
  the request has been issued. \<^verbatim>\<open>response.ok\<close> is a status from 200 to 299;
  \<^verbatim>\<open>response.headers.get\<close> yields \<^verbatim>\<open>null\<close> (\<open>None\<close>) for a header the response lacks,
  the response's header names being kept in lower case.
\<close>

definition fetch :: "request \<Rightarrow> world \<Rightarrow> (js_error + response) \<times> world" where
  "fetch r w = (transport w (length (requests w)) r, w\<lparr>requests := requests w @ [r]\<rparr>)"

definition ok :: "response \<Rightarrow> bool" where
  "ok r = (200 \<le> status r \<and> status r < 300)"

definition headers_get :: "string \<Rightarrow> response \<Rightarrow> string option" where
  "headers_get name r = map_of (response_headers r) name"

definition api_call_failed :: "response \<Rightarrow> js_error" where
  "api_call_failed r =
     Error (''API call failed with status '' @ Number_toString 10 (int (status r)) @ '': ''
            @ body_text r)"

definition base_url_undefined :: js_error where
  "base_url_undefined = Error ''PURVIEW_BASE_URL is not defined in the environment variables.''"

text \<open>
  \<^verbatim>\<open>!purviewBaseUrl\<close> holds for an unset variable and for the empty string. The
  \<^verbatim>\<open>catch\<close> blocks log and rethrow, so a thrown value is returned as it is.
  \<open>protectionScopeRequest\<close> is the URL and the options object that
  \<^verbatim>\<open>invokeProtectionScopeApi\<close> hands to \<^verbatim>\<open>fetch\<close>; the body is the empty object.
\<close>

definition protectionScopeRequest :: "string \<Rightarrow> string \<Rightarrow> request" where
  "protectionScopeRequest accessToken purviewBaseUrl =
     (let protectionScopePath = ''me/dataSecurityAndGovernance/protectionScopes/compute'';
          apiUrl = replace_trailing_slashes purviewBaseUrl @ ''/''
                   @ replace_leading_slashes protectionScopePath
      in \<lparr>url = apiUrl, http_method = ''POST'',
          headers = [(''Authorization'', ''Bearer '' @ accessToken),
                     (''Content-Type'', ''application/json'')],
          body = Some (JObject [])\<rparr>)"

definition invokeProtectionScopeApi ::
  "string \<Rightarrow> world \<Rightarrow> (js_error + json \<times> string option) \<times> world" where
  "invokeProtectionScopeApi accessToken w =
     (case PURVIEW_BASE_URL w of
        None \<Rightarrow> (Inl base_url_undefined, w)
      | Some purviewBaseUrl \<Rightarrow>
          if purviewBaseUrl = [] then (Inl base_url_undefined, w)
          else
            let (res, w1) = fetch (protectionScopeRequest accessToken purviewBaseUrl) w
            in (case res of
                  Inl e \<Rightarrow> (Inl e, w1)
                | Inr response \<Rightarrow>
                    if \<not> ok response then (Inl (api_call_failed response), w1)
                    else
                      let etag = headers_get ''etag'' response
                      in (case json_parse w1 (body_text response) of
                            Inl e \<Rightarrow> (Inl e, w1)
                          | Inr parsed \<Rightarrow> (Inr (parsed, etag), w1))))"

text \<open>
  The three label operations differ in their URL only. \<open>graphBaseUrl\<close> is the
  expression \<^verbatim>\<open>process.env.GRAPH_BASE_URL?.replace(/\/+$/, '') || default\<close> that each
  of them starts with, \<open>labelInfoRequest\<close> the URL and the options object that each
  of them hands to \<^verbatim>\<open>fetch\<close>, and \<open>fetch_label_info\<close> that call and the response
  handling that each of them ends with.
\<close>

definition graphBaseUrl :: "world \<Rightarrow> string" where
  "graphBaseUrl w =
     (case GRAPH_BASE_URL w of
        None \<Rightarrow> ''https://graph.microsoft.com/v1.0''
      | Some g \<Rightarrow>
          if replace_trailing_slashes g = [] then ''https://graph.microsoft.com/v1.0''
          else replace_trailing_slashes g)"

definition label_info_failed :: "response \<Rightarrow> js_error" where
  "label_info_failed r =
     Error (''LabelInfo call failed - '' @ Number_toString 10 (int (status r)) @ '': ''
            @ body_text r)"

definition labelInfoRequest :: "string \<Rightarrow> string \<Rightarrow> request" where
  "labelInfoRequest u accessToken =
     \<lparr>url = u, http_method = ''GET'',
      headers = [(''Authorization'', ''Bearer '' @ accessToken),
                 (''Accept'', ''application/json''),
                 (''User-Agent'', ''Purview-API-Sample'')],
      body = None\<rparr>"

definition fetch_label_info :: "string \<Rightarrow> string \<Rightarrow> world \<Rightarrow> (js_error + string) \<times> world" where
  "fetch_label_info u accessToken w =
     (let (res, w1) = fetch (labelInfoRequest u accessToken) w
      in (case res of
            Inl e \<Rightarrow> (Inl e, w1)
          | Inr response \<Rightarrow>
              if \<not> ok response then (Inl (label_info_failed response), w1)
              else (Inr (body_text response), w1)))"

definition invokeUserRightsForLables :: "string \<Rightarrow> world \<Rightarrow> (js_error + string) \<times> world" where
  "invokeUserRightsForLables accessToken w =
     fetch_label_info
       (graphBaseUrl w
        @ ''/security/dataSecurityAndGovernance/sensitivityLabels?$expand=rights,sublabels'')
       accessToken w"

definition invokeUserRightsForSubLables ::
  "string \<Rightarrow> string \<Rightarrow> world \<Rightarrow> (js_error + string) \<times> world" where
  "invokeUserRightsForSubLables accessToken labelId w =
     fetch_label_info
       (graphBaseUrl w @ ''/security/dataSecurityAndGovernance/sensitivityLabels/'' @ labelId
        @ ''/rights'')
       accessToken w"

text \<open>\<^verbatim>\<open>Array.prototype.join\<close>.\<close>

fun join :: "string \<Rightarrow> string list \<Rightarrow> string" where
  "join sep [] = []"
| "join sep [x] = x"
| "join sep (x # y # ys) = x @ sep @ join sep (y # ys)"

definition quoted :: "string \<Rightarrow> string" where
  "quoted ident = [CHR 0x22] @ ident @ [CHR 0x22]"

definition invokeLabelInheritance ::
  "string \<Rightarrow> string list \<Rightarrow> world \<Rightarrow> (js_error + string) \<times> world" where
  "invokeLabelInheritance accessToken labelids w =
     (let idsSegment = join '','' (map quoted labelids)
      in fetch_label_info
           (graphBaseUrl w
            @ ''/security/dataSecurityAndGovernance/sensitivityLabels/computeInheritance(labelIds=[''
            @ idsSegment @ ''],locale='' @ [CHR 0x27] @ ''en-US'' @ [CHR 0x27]
            @ '',contentFormats=['' @ quoted ''File'' @ ''])'')
           accessToken w)"

text \<open>
  The \<open>etag\<close> argument of \<^verbatim>\<open>invokeProcessContentApi\<close> is declared a string; the etag
  that \<^verbatim>\<open>invokeProtectionScopeApi\<close> returns may be \<^verbatim>\<open>null\<close>, so the model takes an
  optional string. \<^verbatim>\<open>etag || ''\<close> is the etag unless it is absent or empty.
  \<open>processContentRequest\<close> is the URL and the options object handed to \<^verbatim>\<open>fetch\<close>.
\<close>

definition etag_or_empty :: "string option \<Rightarrow> string" where
  "etag_or_empty etag = (case etag of None \<Rightarrow> [] | Some e \<Rightarrow> if e = [] then [] else e)"

definition processContentRequest :: "string \<Rightarrow> string option \<Rightarrow> json \<Rightarrow> string \<Rightarrow> request" where
  "processContentRequest accessToken etag requestBody purviewBaseUrl =
     (let processContentPath = ''me/dataSecurityAndGovernance/processContent'';
          apiUrl = replace_trailing_slashes purviewBaseUrl @ ''/''
                   @ replace_leading_slashes processContentPath
      in \<lparr>url = apiUrl, http_method = ''POST'',
          headers = [(''Authorization'', ''Bearer '' @ accessToken),
                     (''Content-Type'', ''application/json''),
                     (''If-None-Match'', etag_or_empty etag)],
          body = Some requestBody\<rparr>)"

definition invokeProcessContentApi ::
  "string \<Rightarrow> string option \<Rightarrow> json \<Rightarrow> world
     \<Rightarrow> (js_error + string \<times> (string \<times> string) list) \<times> world" where
  "invokeProcessContentApi accessToken etag requestBody w =
     (case PURVIEW_BASE_URL w of
        None \<Rightarrow> (Inl base_url_undefined, w)
      | Some purviewBaseUrl \<Rightarrow>
          if purviewBaseUrl = [] then (Inl base_url_undefined, w)
          else
            let (res, w1) = fetch (processContentRequest accessToken etag requestBody
                                     purviewBaseUrl) w
            in (case res of
                  Inl e \<Rightarrow> (Inl e, w1)
                | Inr response \<Rightarrow>
                    if \<not> ok response then (Inl (api_call_failed response), w1)
                    else (Inr (body_text response, response_headers response), w1)))"

section \<open>The offline task orchestrator\<close>

text \<open>
  The two \<^verbatim>\<open>if\<close> blocks of \<^verbatim>\<open>enqueueOfflinePurviewTasksAsync\<close> inside its \<^verbatim>\<open>try\<close>: a
  value thrown in the first block skips the second one and is rethrown by the
  \<^verbatim>\<open>catch\<close>.
\<close>

definition enqueueOfflinePurviewTasksAsync ::
  "string \<Rightarrow> string option \<Rightarrow> string \<Rightarrow> string \<Rightarrow> string \<Rightarrow> string \<Rightarrow> string \<Rightarrow> string
     \<Rightarrow> string \<Rightarrow> int \<Rightarrow> world \<Rightarrow> (js_error + string) \<times> world" where
  "enqueueOfflinePurviewTasksAsync accessToken etag name applicationId uploadTextMode
       downloadTextMode prompt response sessionId sequenceNo w =
     (let (uploaded, w2) =
            (if uploadTextMode = ''evaluateOffline'' then
               (let (processContentRequestBody, w1) =
                      constructProcessContentRequestBody prompt name sequenceNo sessionId
                        ''uploadText'' applicationId w
                in (case invokeProcessContentApi accessToken etag processContentRequestBody w1 of
                      (Inl e, w') \<Rightarrow> (Some e, w')
                    | (Inr _, w') \<Rightarrow> (None, w')))
             else (None, w))
      in (case uploaded of
            Some e \<Rightarrow> (Inl e, w2)
          | None \<Rightarrow>
              if downloadTextMode = ''evaluateOffline'' then
                (let (processContentRequestBodyForLLM, w3) =
                       constructProcessContentRequestBody response name (number_add sequenceNo 1)
                         sessionId ''downloadText'' applicationId w2
                 in (case invokeProcessContentApi accessToken etag
                            processContentRequestBodyForLLM w3 of
                       (Inl e, w') \<Rightarrow> (Inl e, w')
                     | (Inr _, w') \<Rightarrow> (Inr ''OK'', w')))
              else (Inr ''OK'', w2)))"

section \<open>Notions used in the statements\<close>

text \<open>The character classes of an identifier, by the template character they stand for.\<close>

definition hex_digit :: "char \<Rightarrow> bool" where
  "hex_digit c = (c \<in> set ''0123456789abcdef'')"

definition guid_char :: "char \<Rightarrow> char \<Rightarrow> bool" where
  "guid_char c z =
     (if c = CHR ''x'' then hex_digit z
      else if c = CHR ''y'' then z \<in> set ''89ab''
      else z = c)"

text \<open>The content entry of a payload sits at \<^verbatim>\<open>contentToProcess.contentEntries[0]\<close>.\<close>

definition entry_path :: "step list" where
  "entry_path = [Key ''contentToProcess'', Key ''contentEntries'', Idx 0]"

text \<open>
  A request is a submission of the text \<open>txt\<close> tagged \<open>activity\<close> at the sequence
  number \<open>n\<close> when it is a POST whose document carries these three values.
\<close>

definition is_submission :: "string \<Rightarrow> string \<Rightarrow> int \<Rightarrow> request \<Rightarrow> bool" where
  "is_submission txt activity n r =
     (http_method r = ''POST'' \<and>
      (case body r of
         None \<Rightarrow> False
       | Some doc \<Rightarrow>
           json_at (entry_path @ [Key ''content'', Key ''data'']) doc = Some (JString txt)
           \<and> json_at [Key ''contentToProcess'', Key ''activityMetadata'', Key ''activity''] doc
               = Some (JString activity)
           \<and> json_at (entry_path @ [Key ''sequenceNumber'']) doc = Some (JNumber n)))"

text \<open>
  A world to run the functions in: both base URLs configured with trailing slashes,
  a transport that answers every request with status 200, the etag \<open>abc\<close> and the
  text \<^verbatim>\<open>{"ok":true}\<close>, a parser that knows this one text, a clock that advances by a
  millisecond from one reading to the next (from 2025-11-03T10:30:00.000Z).
\<close>

definition demo_world :: world where
  \<open>demo_world =
     \<lparr>PURVIEW_BASE_URL = Some ''https://purview.example/v1.0//'',
      GRAPH_BASE_URL = Some ''https://graph.example/beta/'',
      random_draws = (\<lambda>i. if even i then 5 / 8 else 1 / 16), drawn = 0,
      clock = (\<lambda>i. 1762165800000 + int i), clock_reads = 0,
      transport = (\<lambda>n r. Inr \<lparr>status = 200, response_headers = [(''etag'', ''abc'')],
                                body_text = ''{"ok":true}''\<rparr>),
      requests = [],
      json_parse = (\<lambda>s. if s = ''{"ok":true}'' then Inr (JObject [(''ok'', JBool True)])
                         else Inl (SyntaxError ''Unexpected token''))\<rparr>\<close>

text \<open>Variants of \<open>demo_world\<close>: no Purview base URL; a transport that refuses with
  status 403; a transport whose responses carry no etag header.\<close>

definition unconfigured_world :: world where
  "unconfigured_world = demo_world\<lparr>PURVIEW_BASE_URL := None\<rparr>"

definition forbidden_world :: world where
  "forbidden_world =
     demo_world\<lparr>transport := \<lambda>n r. Inr \<lparr>status = 403, response_headers = [],
                                          body_text = ''Forbidden''\<rparr>\<rparr>"


text \<open>The requests issued between a world \<open>w\<close> and a later world \<open>w'\<close>.\<close>

definition new_requests :: "world \<Rightarrow> world \<Rightarrow> request list" where
  "new_requests w w' = drop (length (requests w)) (requests w')"

text \<open>
  The rendering of label ids in the words of the specification: a comma-separated
  list of double-quoted strings, each id inserted as it is.
\<close>

fun quoted_list_spec :: "string list \<Rightarrow> string" where
  "quoted_list_spec [] = []"
| "quoted_list_spec [i] = CHR 0x22 # i @ [CHR 0x22]"
| "quoted_list_spec (i # j # ids) = CHR 0x22 # i @ [CHR 0x22] @ '','' @ quoted_list_spec (j # ids)"

text \<open>
  What either branch of the orchestrator does with its text: build the payload, then
  hand it to \<open>invokeProcessContentApi\<close>.
\<close>

definition submit ::
  "string \<Rightarrow> string option \<Rightarrow> string \<Rightarrow> string \<Rightarrow> string \<Rightarrow> string \<Rightarrow> int \<Rightarrow> string \<Rightarrow> world
     \<Rightarrow> (js_error + string \<times> (string \<times> string) list) \<times> world" where
  "submit accessToken etag name applicationId txt activity n sessionId w =
     (let (doc, w1) = constructProcessContentRequestBody txt name n sessionId activity
                        applicationId w
      in invokeProcessContentApi accessToken etag doc w1)"

section \<open>The identifier generator: shape of the result\<close>

lemma hex_digit_char:
  assumes "n < 16"
  shows "hex_digit (digit_char n)"
proof -
  let ?h = "''0123456789abcdef''"
  have "digit_char n = (?h @ ''ghijklmnopqrstuvwxyz'') ! n"
    using assms by (simp add: digit_char_def)
  also have "\<dots> = ?h ! n"
    using assms by (subst nth_append) simp
  finally have "digit_char n = ?h ! n" .
  moreover have "?h ! n \<in> set ?h"
    using assms by (intro nth_mem) simp
  ultimately show ?thesis
    by (simp only: hex_digit_def)
qed

lemma one_hex_digit: "n < 16 \<Longrightarrow> radix_digits 16 n = [digit_char n]"
  by (simp add: radix_digits.simps)

lemma trunc_draw:
  assumes "0 \<le> x" "x < 1"
  shows "0 \<le> Math_trunc (x * 16)" and "Math_trunc (x * 16) < 16"
proof -
  have "0 \<le> x * 16" using assms by simp
  then have eq: "Math_trunc (x * 16) = \<lfloor>x * 16\<rfloor>" by (simp add: Math_trunc_def)
  show "0 \<le> Math_trunc (x * 16)" using \<open>0 \<le> x * 16\<close> eq by simp
  have "x * 16 < 16" using assms by simp
  then show "Math_trunc (x * 16) < 16" unfolding eq by (simp add: floor_less_iff)
qed

lemma x_digit:
  assumes "0 \<le> x" "x < 1"
  shows "\<exists>z. Number_toString 16 (Math_trunc (x * 16)) = [z] \<and> hex_digit z"
proof -
  let ?r = "Math_trunc (x * 16)"
  have "0 \<le> ?r" "?r < 16" using trunc_draw [OF assms] by auto
  then have "nat ?r < 16" by simp
  with \<open>0 \<le> ?r\<close> show ?thesis
    by (simp add: Number_toString_def one_hex_digit hex_digit_char)
qed

lemma y_digit:
  assumes "0 \<le> x" "x < 1"
  shows "\<exists>z. Number_toString 16 (Math_trunc (x * 16) smod 4 + 8) = [z] \<and> z \<in> set ''89ab''"
proof -
  let ?r = "Math_trunc (x * 16)"
  have r: "0 \<le> ?r" "?r < 16" using trunc_draw [OF assms] by auto
  then have "?r smod 4 = ?r mod 4" by (simp add: smod_int_alt_def sgn_if)
  moreover have "?r mod 4 \<in> {0, 1, 2, 3}"
    using pos_mod_bound [of 4 ?r] pos_mod_sign [of 4 ?r] by auto
  ultimately have "?r smod 4 + 8 \<in> {8, 9, 10, 11}" by auto
  then show ?thesis
    by (auto simp: Number_toString_def radix_digits.simps digit_char_def)
qed

text \<open>
  The loop appends one character for each template character, of the class the
  template character asks for; the accumulator and the world are generalised.
\<close>

lemma generateGuid_loop_chars:
  assumes "\<forall>i. 0 \<le> random_draws w i \<and> random_draws w i < 1"
  shows "\<exists>zs. fst (generateGuid_loop t g w) = g @ zs \<and> list_all2 guid_char t zs"
  using assms
proof (induction t arbitrary: g w)
  case Nil
  then show ?case by simp
next
  case (Cons c t)
  let ?w1 = "w\<lparr>drawn := Suc (drawn w)\<rparr>"
  let ?x = "random_draws w (drawn w)"
  have range: "0 \<le> ?x" "?x < 1" using Cons.prems by auto
  have w1: "\<forall>i. 0 \<le> random_draws ?w1 i \<and> random_draws ?w1 i < 1"
    using Cons.prems by simp
  consider (x) "c = CHR ''x''" | (y) "c = CHR ''y''" | (lit) "c \<noteq> CHR ''x''" "c \<noteq> CHR ''y''"
    by blast
  then show ?case
  proof cases
    case x
    obtain z where z: "Number_toString 16 (Math_trunc (?x * 16)) = [z]" "hex_digit z"
      using x_digit [OF range] by blast
    obtain zs where "fst (generateGuid_loop t (g @ [z]) ?w1) = (g @ [z]) @ zs"
        "list_all2 guid_char t zs"
      using Cons.IH [OF w1] by blast
    moreover have "guid_char c z"
      using x z by (simp add: guid_char_def)
    ultimately show ?thesis
      using x z by (simp add: Math_random_def)
  next
    case y
    obtain z where z: "Number_toString 16 (Math_trunc (?x * 16) smod 4 + 8) = [z]"
        "z \<in> set ''89ab''"
      using y_digit [OF range] by blast
    obtain zs where "fst (generateGuid_loop t (g @ [z]) ?w1) = (g @ [z]) @ zs"
        "list_all2 guid_char t zs"
      using Cons.IH [OF w1] by blast
    moreover have "guid_char c z"
      using y z by (simp add: guid_char_def)
    ultimately show ?thesis
      using y z by (simp add: Math_random_def)
  next
    case lit
    obtain zs where "fst (generateGuid_loop t (g @ [c]) w) = (g @ [c]) @ zs"
        "list_all2 guid_char t zs"
      using Cons.IH [OF Cons.prems] by blast
    moreover have "guid_char c c"
      using lit by (simp add: guid_char_def)
    ultimately show ?thesis
      using lit by simp
  qed
qed

lemma generateGuid_loop_world:
  "snd (generateGuid_loop t g w) =
     w\<lparr>drawn := drawn w + length (filter (\<lambda>c. c = CHR ''x'' \<or> c = CHR ''y'') t)\<rparr>"
  by (induction t arbitrary: g w) (simp_all add: Math_random_def)

lemma generateGuid_world: "snd (generateGuid w) = w\<lparr>drawn := drawn w + 31\<rparr>"
  unfolding generateGuid_def generateGuid_loop_world by simp

lemma template_x:
  "\<forall>i < 36. i \<notin> {8, 13, 18, 23, 14, 19} \<longrightarrow>
     ''xxxxxxxx-xxxx-4xxx-yxxx-xxxxxxxxxxxx'' ! i = CHR ''x''"
  by (simp add: All_less_Suc numeral_eq_Suc)

text \<open>
  C5. Whatever \<^verbatim>\<open>Math.random()\<close> returns, each draw being a number from 0 up to but
  excluding 1, the string returned by \<open>generateGuid\<close> has length 36, a hyphen at the
  positions 8, 13, 18 and 23, the character 4 at position 14, one of 8, 9, a, b at
  position 19 and a lower-case hexadecimal digit at every other position.
\<close>

theorem generateGuid_pattern:
  assumes "\<forall>i. 0 \<le> random_draws w i \<and> random_draws w i < 1"
  shows "length (fst (generateGuid w)) = 36
    \<and> fst (generateGuid w) ! 8 = CHR ''-'' \<and> fst (generateGuid w) ! 13 = CHR ''-''
    \<and> fst (generateGuid w) ! 18 = CHR ''-'' \<and> fst (generateGuid w) ! 23 = CHR ''-''
    \<and> fst (generateGuid w) ! 14 = CHR ''4''
    \<and> fst (generateGuid w) ! 19 \<in> {CHR ''8'', CHR ''9'', CHR ''a'', CHR ''b''}
    \<and> (\<forall>i < 36. i \<notin> {8, 13, 18, 23, 14, 19} \<longrightarrow>
          fst (generateGuid w) ! i \<in> set ''0123456789abcdef'')"
proof -
  let ?t = "''xxxxxxxx-xxxx-4xxx-yxxx-xxxxxxxxxxxx''"
  let ?g = "fst (generateGuid w)"
  have "list_all2 guid_char ?t ?g"
    using generateGuid_loop_chars [OF assms, of ?t "[]"] by (auto simp: generateGuid_def)
  then have len: "length ?g = 36" and nth: "\<And>i. i < 36 \<Longrightarrow> guid_char (?t ! i) (?g ! i)"
    by (simp_all add: list_all2_conv_all_nth)
  have hyphens: "?g ! 8 = CHR ''-''" "?g ! 13 = CHR ''-''" "?g ! 18 = CHR ''-''"
      "?g ! 23 = CHR ''-''"
    using nth [of 8] nth [of 13] nth [of 18] nth [of 23] by (simp_all add: guid_char_def)
  have four: "?g ! 14 = CHR ''4''"
    using nth [of 14] by (simp add: guid_char_def)
  have variant: "?g ! 19 \<in> {CHR ''8'', CHR ''9'', CHR ''a'', CHR ''b''}"
    using nth [of 19] by (simp add: guid_char_def)
  have others: "?g ! i \<in> set ''0123456789abcdef''"
    if "i < 36" "i \<notin> {8, 13, 18, 23, 14, 19}" for i
  proof -
    have "?t ! i = CHR ''x''" using template_x that by blast
    with nth [OF that(1)] show ?thesis by (simp add: guid_char_def hex_digit_def)
  qed
  from len hyphens four variant others show ?thesis by blast
qed

lemma demo_world_draws: "\<forall>i. 0 \<le> random_draws demo_world i \<and> random_draws demo_world i < 1"
  by (simp add: demo_world_def)

theorem generateGuid_pattern_witness:
  "(\<forall>i. 0 \<le> random_draws demo_world i \<and> random_draws demo_world i < 1)
    \<and> length (fst (generateGuid demo_world)) = 36
    \<and> fst (generateGuid demo_world) ! 8 = CHR ''-''
    \<and> fst (generateGuid demo_world) ! 14 = CHR ''4''
    \<and> fst (generateGuid demo_world) ! 19 \<in> {CHR ''8'', CHR ''9'', CHR ''a'', CHR ''b''}
    \<and> fst (generateGuid demo_world) ! 35 \<in> set ''0123456789abcdef''"
  using generateGuid_pattern [OF demo_world_draws] demo_world_draws by simp

section \<open>The payload builder: fields of the document\<close>

lemma constructProcessContentRequestBody_world:
  "snd (constructProcessContentRequestBody contentData name sequenceNo correlationId activity
          applicationId w) =
     w\<lparr>drawn := drawn w + 31, clock_reads := Suc (Suc (clock_reads w))\<rparr>"
proof -
  obtain g where g: "generateGuid w = (g, w\<lparr>drawn := drawn w + 31\<rparr>)"
    using generateGuid_world [of w] by (cases "generateGuid w") simp
  show ?thesis
    by (simp add: constructProcessContentRequestBody_def g new_Date_def)
qed

lemma payload_fields:
  fixes contentData name :: string and sequenceNo :: int
    and correlationId activity applicationId :: string and w :: world
  defines "doc \<equiv> fst (constructProcessContentRequestBody contentData name sequenceNo
                          correlationId activity applicationId w)"
  shows "json_at (entry_path @ [Key ''content'', Key ''data'']) doc = Some (JString contentData)"
    and "json_at (entry_path @ [Key ''sequenceNumber'']) doc = Some (JNumber sequenceNo)"
    and "json_at [Key ''contentToProcess'', Key ''activityMetadata'', Key ''activity''] doc
           = Some (JString activity)"
proof -
  obtain g w1 where g: "generateGuid w = (g, w1)"
    by (cases "generateGuid w")
  show "json_at (entry_path @ [Key ''content'', Key ''data'']) doc = Some (JString contentData)"
    by (simp add: doc_def constructProcessContentRequestBody_def g new_Date_def entry_path_def)
  show "json_at (entry_path @ [Key ''sequenceNumber'']) doc = Some (JNumber sequenceNo)"
    by (simp add: doc_def constructProcessContentRequestBody_def g new_Date_def entry_path_def)
  show "json_at [Key ''contentToProcess'', Key ''activityMetadata'', Key ''activity''] doc
           = Some (JString activity)"
    by (simp add: doc_def constructProcessContentRequestBody_def g new_Date_def)
qed

text \<open>
  C3, as the claim words it: read from the top of the returned document, the path
  \<^verbatim>\<open>contentEntries[0].sequenceNumber\<close> leads nowhere, because the document has the
  single top-level property \<^verbatim>\<open>contentToProcess\<close>. With the inputs of the specification's
  example the sequence number 3 is not found there.
\<close>

theorem payload_top_level_counterexample:
  "json_at [Key ''contentEntries'', Idx 0, Key ''sequenceNumber'']
     (fst (constructProcessContentRequestBody ''hello'' ''app'' 3 ''sess-1'' ''uploadText''
             ''app-id'' demo_world))
   \<noteq> Some (JNumber 3)"
proof -
  obtain g w1 where g: "generateGuid demo_world = (g, w1)"
    by (cases "generateGuid demo_world")
  show ?thesis
    by (simp add: constructProcessContentRequestBody_def g new_Date_def)
qed

text \<open>
  C3, amended: for every input and in every world, the returned document is an object
  with the single top-level property \<^verbatim>\<open>contentToProcess\<close>, and holds under it the
  content entry \<^verbatim>\<open>contentEntries[0]\<close> with \<^verbatim>\<open>sequenceNumber\<close> equal to \<open>sequenceNo\<close>,
  \<^verbatim>\<open>correlationId\<close> equal to \<open>correlationId\<close>, \<^verbatim>\<open>content.data\<close> equal to
  \<open>contentData\<close> and \<^verbatim>\<open>isTruncated\<close> false, \<^verbatim>\<open>activityMetadata.activity\<close> equal to
  \<open>activity\<close>, \<^verbatim>\<open>protectedAppMetadata.applicationLocation.value\<close> equal to
  \<open>applicationId\<close>, and the three fixed discriminator strings in the
  \<^verbatim>\<open>@odata.type\<close> properties of the entry, of its content and of the application
  location.
\<close>

theorem constructProcessContentRequestBody_fields:
  fixes contentData name :: string and sequenceNo :: int
    and correlationId activity applicationId :: string and w :: world
  defines "doc \<equiv> fst (constructProcessContentRequestBody contentData name sequenceNo
                          correlationId activity applicationId w)"
  shows "(\<exists>payload. doc = JObject [(''contentToProcess'', payload)])
    \<and> json_at [Key ''contentToProcess'', Key ''contentEntries'', Idx 0,
                Key ''sequenceNumber''] doc = Some (JNumber sequenceNo)
    \<and> json_at [Key ''contentToProcess'', Key ''contentEntries'', Idx 0,
                Key ''correlationId''] doc = Some (JString correlationId)
    \<and> json_at [Key ''contentToProcess'', Key ''contentEntries'', Idx 0,
                Key ''content'', Key ''data''] doc = Some (JString contentData)
    \<and> json_at [Key ''contentToProcess'', Key ''activityMetadata'', Key ''activity''] doc
         = Some (JString activity)
    \<and> json_at [Key ''contentToProcess'', Key ''protectedAppMetadata'',
                Key ''applicationLocation'', Key ''value''] doc = Some (JString applicationId)
    \<and> json_at [Key ''contentToProcess'', Key ''contentEntries'', Idx 0,
                Key ''isTruncated''] doc = Some (JBool False)
    \<and> json_at [Key ''contentToProcess'', Key ''contentEntries'', Idx 0,
                Key ''@odata.type''] doc
         = Some (JString ''microsoft.graph.processConversationMetadata'')
    \<and> json_at [Key ''contentToProcess'', Key ''contentEntries'', Idx 0,
                Key ''content'', Key ''@odata.type''] doc
         = Some (JString ''microsoft.graph.textContent'')
    \<and> json_at [Key ''contentToProcess'', Key ''protectedAppMetadata'',
                Key ''applicationLocation'', Key ''@odata.type''] doc
         = Some (JString ''microsoft.graph.policyLocationApplication'')"
proof -
  obtain g w1 where g: "generateGuid w = (g, w1)"
    by (cases "generateGuid w")
  show ?thesis
    by (simp add: doc_def constructProcessContentRequestBody_def g new_Date_def)
qed

text \<open>
  C4, as the claim words it: the two timestamps are two readings of the clock. In
  \<open>demo_world\<close> the clock moves on by a millisecond between them, and the created and
  the modified time of the entry differ.
\<close>

theorem timestamps_differ_counterexample:
  "json_at (entry_path @ [Key ''createdDateTime''])
     (fst (constructProcessContentRequestBody ''hello'' ''app'' 3 ''sess-1'' ''uploadText''
             ''app-id'' demo_world))
   \<noteq> json_at (entry_path @ [Key ''modifiedDateTime''])
     (fst (constructProcessContentRequestBody ''hello'' ''app'' 3 ''sess-1'' ''uploadText''
             ''app-id'' demo_world))"
proof -
  obtain g where g: "generateGuid demo_world = (g, demo_world\<lparr>drawn := drawn demo_world + 31\<rparr>)"
    using generateGuid_world [of demo_world] by (cases "generateGuid demo_world") simp
  have t0: "toISOString 1762165800000 = ''2025-11-03T10:30:00.000Z''"
    by code_simp
  have t1: "toISOString 1762165800001 = ''2025-11-03T10:30:00.001Z''"
    by code_simp
  have c: "clock demo_world 0 = 1762165800000" "clock demo_world (Suc 0) = 1762165800001"
      "clock_reads demo_world = 0"
    by (simp_all add: demo_world_def)
  show ?thesis
    by (simp add: constructProcessContentRequestBody_def g new_Date_def entry_path_def c t0 t1)
qed

text \<open>
  C4, amended: in the entry at \<^verbatim>\<open>contentToProcess.contentEntries[0]\<close>,
  \<^verbatim>\<open>createdDateTime\<close> is the ISO-8601 rendering of one reading of the wall clock and
  \<^verbatim>\<open>modifiedDateTime\<close> that of the next reading, both taken during the construction;
  the two are equal whenever the two readings are the same millisecond.
\<close>

theorem constructProcessContentRequestBody_timestamps:
  fixes contentData name :: string and sequenceNo :: int
    and correlationId activity applicationId :: string and w :: world
  defines "doc \<equiv> fst (constructProcessContentRequestBody contentData name sequenceNo
                          correlationId activity applicationId w)"
  shows "json_at (entry_path @ [Key ''createdDateTime'']) doc
           = Some (JString (toISOString (clock w (clock_reads w))))
    \<and> json_at (entry_path @ [Key ''modifiedDateTime'']) doc
           = Some (JString (toISOString (clock w (Suc (clock_reads w)))))
    \<and> (clock w (clock_reads w) = clock w (Suc (clock_reads w)) \<longrightarrow>
          json_at (entry_path @ [Key ''createdDateTime'']) doc
            = json_at (entry_path @ [Key ''modifiedDateTime'']) doc)"
proof -
  obtain g where g: "generateGuid w = (g, w\<lparr>drawn := drawn w + 31\<rparr>)"
    using generateGuid_world [of w] by (cases "generateGuid w") simp
  show ?thesis
    by (simp add: doc_def constructProcessContentRequestBody_def g new_Date_def entry_path_def)
qed

theorem constructProcessContentRequestBody_timestamps_witness:
  "clock (demo_world\<lparr>clock := \<lambda>i. 1762165800000\<rparr>)
       (clock_reads (demo_world\<lparr>clock := \<lambda>i. 1762165800000\<rparr>))
     = clock (demo_world\<lparr>clock := \<lambda>i. 1762165800000\<rparr>)
         (Suc (clock_reads (demo_world\<lparr>clock := \<lambda>i. 1762165800000\<rparr>)))
   \<and> json_at (entry_path @ [Key ''createdDateTime''])
        (fst (constructProcessContentRequestBody ''hello'' ''app'' 3 ''sess-1'' ''uploadText''
                ''app-id'' (demo_world\<lparr>clock := \<lambda>i. 1762165800000\<rparr>)))
     = json_at (entry_path @ [Key ''modifiedDateTime''])
        (fst (constructProcessContentRequestBody ''hello'' ''app'' 3 ''sess-1'' ''uploadText''
                ''app-id'' (demo_world\<lparr>clock := \<lambda>i. 1762165800000\<rparr>)))"
  using constructProcessContentRequestBody_timestamps
    [of "''hello''" "''app''" 3 "''sess-1''" "''uploadText''" "''app-id''"
        "demo_world\<lparr>clock := \<lambda>i. 1762165800000\<rparr>"]
  by simp

section \<open>The HTTP clients: configuration, requests and responses\<close>

lemma replace_trailing_slashes_all:
  "list_all (\<lambda>d. d = CHR ''/'') s \<Longrightarrow> replace_trailing_slashes s = []"
  by (cases s) simp_all

lemma replace_trailing_slashes_replicate: "replace_trailing_slashes (replicate n CHR ''/'') = []"
  by (rule replace_trailing_slashes_all) (simp add: list_all_iff)

text \<open>Whatever follows the last character that is not a slash is removed, and no more.\<close>

lemma replace_trailing_slashes_append:
  assumes "b = [] \<or> last b \<noteq> CHR ''/''"
  shows "replace_trailing_slashes (b @ replicate n CHR ''/'') = b"
  using assms
proof (induction b)
  case Nil
  show ?case by (simp only: append_Nil replace_trailing_slashes_replicate)
next
  case (Cons c b)
  show ?case
  proof (cases "b = []")
    case True
    with Cons.prems have "c \<noteq> CHR ''/''" by simp
    with True show ?thesis by (simp add: replace_trailing_slashes_replicate)
  next
    case False
    with Cons.prems have l: "last b \<noteq> CHR ''/''" by simp
    have "last b \<in> set b" using False by (rule last_in_set)
    with l have "\<not> list_all (\<lambda>d. d = CHR ''/'') (b @ replicate n CHR ''/'')"
      by (auto simp: list_all_iff)
    moreover have "replace_trailing_slashes (b @ replicate n CHR ''/'') = b"
      using Cons.IH l by blast
    ultimately show ?thesis by simp
  qed
qed

lemma invokeProcessContentApi_configured:
  assumes "PURVIEW_BASE_URL w = Some b" "b \<noteq> []"
  shows "invokeProcessContentApi accessToken etag requestBody w =
     (case transport w (length (requests w))
             (processContentRequest accessToken etag requestBody b) of
        Inl e \<Rightarrow> Inl e
      | Inr r \<Rightarrow> if ok r then Inr (body_text r, response_headers r) else Inl (api_call_failed r),
      w\<lparr>requests := requests w @ [processContentRequest accessToken etag requestBody b]\<rparr>)"
  using assms by (simp add: invokeProcessContentApi_def fetch_def split: sum.split)

lemma invokeProcessContentApi_unconfigured:
  assumes "PURVIEW_BASE_URL w = None \<or> PURVIEW_BASE_URL w = Some []"
  shows "invokeProcessContentApi accessToken etag requestBody w = (Inl base_url_undefined, w)"
  using assms by (auto simp: invokeProcessContentApi_def)

lemma invokeProtectionScopeApi_configured:
  assumes "PURVIEW_BASE_URL w = Some b" "b \<noteq> []"
  shows "invokeProtectionScopeApi accessToken w =
     (case transport w (length (requests w)) (protectionScopeRequest accessToken b) of
        Inl e \<Rightarrow> Inl e
      | Inr r \<Rightarrow>
          if ok r then
            (case json_parse w (body_text r) of
               Inl e \<Rightarrow> Inl e
             | Inr parsed \<Rightarrow> Inr (parsed, headers_get ''etag'' r))
          else Inl (api_call_failed r),
      w\<lparr>requests := requests w @ [protectionScopeRequest accessToken b]\<rparr>)"
  using assms by (simp add: invokeProtectionScopeApi_def fetch_def split: sum.split)

lemma fetch_label_info_eq:
  "fetch_label_info u accessToken w =
     (case transport w (length (requests w)) (labelInfoRequest u accessToken) of
        Inl e \<Rightarrow> Inl e
      | Inr r \<Rightarrow> if ok r then Inr (body_text r) else Inl (label_info_failed r),
      w\<lparr>requests := requests w @ [labelInfoRequest u accessToken]\<rparr>)"
  by (simp add: fetch_label_info_def fetch_def split: sum.split)

lemma new_requests_append [simp]: "new_requests w (w\<lparr>requests := requests w @ rs\<rparr>) = rs"
  by (simp add: new_requests_def)

lemma new_requests_same [simp]: "new_requests w w = []"
  by (simp add: new_requests_def)

text \<open>
  C6. Called while \<^verbatim>\<open>PURVIEW_BASE_URL\<close> is absent (unset, or set to the empty string),
  \<open>invokeProtectionScopeApi\<close> and \<open>invokeProcessContentApi\<close> fail with the configuration
  error, and the world they leave is the world they found: no request has been issued.
\<close>

theorem missing_base_url_fails_before_any_request:
  assumes "PURVIEW_BASE_URL w = None \<or> PURVIEW_BASE_URL w = Some []"
  shows "invokeProtectionScopeApi accessToken w
           = (Inl (Error ''PURVIEW_BASE_URL is not defined in the environment variables.''), w)
    \<and> invokeProcessContentApi accessToken etag requestBody w
           = (Inl (Error ''PURVIEW_BASE_URL is not defined in the environment variables.''), w)"
  using assms
  by (auto simp: invokeProtectionScopeApi_def invokeProcessContentApi_def base_url_undefined_def)

theorem missing_base_url_fails_before_any_request_witness:
  "(PURVIEW_BASE_URL unconfigured_world = None \<or> PURVIEW_BASE_URL unconfigured_world = Some [])
    \<and> invokeProtectionScopeApi ''token'' unconfigured_world
         = (Inl (Error ''PURVIEW_BASE_URL is not defined in the environment variables.''),
            unconfigured_world)
    \<and> invokeProcessContentApi ''token'' (Some ''abc'') (JObject []) unconfigured_world
         = (Inl (Error ''PURVIEW_BASE_URL is not defined in the environment variables.''),
            unconfigured_world)"
proof -
  have h: "PURVIEW_BASE_URL unconfigured_world = None
             \<or> PURVIEW_BASE_URL unconfigured_world = Some []"
    by (simp add: unconfigured_world_def)
  show ?thesis
    using h missing_base_url_fails_before_any_request
      [OF h, of "''token''" "Some ''abc''" "JObject []"]
    by simp
qed


lemma status_403: "Number_toString 10 403 = ''403''"
  by (simp add: Number_toString_def radix_digits.simps digit_char_def)


text \<open>
  C8. Whenever \<open>invokeProcessContentApi\<close> issues its request (the base URL being
  configured), it issues exactly one, and the \<^verbatim>\<open>If-None-Match\<close> header of that request
  is present and holds the supplied etag; for an absent etag, as for an empty one, the
  header is present and holds the empty string.
\<close>

theorem invokeProcessContentApi_if_none_match:
  assumes "PURVIEW_BASE_URL w = Some b" and "b \<noteq> []"
  shows "map (\<lambda>q. map_of (headers q) ''If-None-Match'')
           (new_requests w (snd (invokeProcessContentApi accessToken etag requestBody w)))
         = [Some (case etag of None \<Rightarrow> [] | Some e \<Rightarrow> e)]"
  using assms
  by (simp add: invokeProcessContentApi_configured processContentRequest_def etag_or_empty_def
      split: option.split)

theorem invokeProcessContentApi_if_none_match_witness:
  "PURVIEW_BASE_URL demo_world = Some ''https://purview.example/v1.0//''
    \<and> map (\<lambda>q. map_of (headers q) ''If-None-Match'')
          (new_requests demo_world
             (snd (invokeProcessContentApi ''token'' (Some []) (JObject []) demo_world)))
        = [Some []]
    \<and> map (\<lambda>q. map_of (headers q) ''If-None-Match'')
          (new_requests demo_world
             (snd (invokeProcessContentApi ''token'' None (JObject []) demo_world)))
        = [Some []]
    \<and> map (\<lambda>q. map_of (headers q) ''If-None-Match'')
          (new_requests demo_world
             (snd (invokeProcessContentApi ''token'' (Some ''abc'') (JObject []) demo_world)))
        = [Some ''abc'']"
proof -
  have h: "PURVIEW_BASE_URL demo_world = Some ''https://purview.example/v1.0//''"
    by (simp add: demo_world_def)
  show ?thesis
    using h
      invokeProcessContentApi_if_none_match [OF h, of "''token''" "Some []" "JObject []"]
      invokeProcessContentApi_if_none_match [OF h, of "''token''" None "JObject []"]
      invokeProcessContentApi_if_none_match [OF h, of "''token''" "Some ''abc''" "JObject []"]
    by simp
qed

lemma join_quoted: "join '','' (map quoted ids) = quoted_list_spec ids"
  by (induction ids rule: quoted_list_spec.induct) (simp_all add: quoted_def)

text \<open>
  C9. For every list of label ids and in every world, \<open>invokeLabelInheritance\<close> issues
  one request, whose URL is the Graph base URL followed by the fixed path, in which
  the ids stand as a comma-separated list of double-quoted strings, each id as it is;
  for the ids \<^verbatim>\<open>id-1\<close> and \<^verbatim>\<open>id-2\<close> the URL contains \<^verbatim>\<open>labelIds=["id-1","id-2"]\<close>.
\<close>

theorem invokeLabelInheritance_url:
  \<open>map url (new_requests w (snd (invokeLabelInheritance accessToken labelids w)))
     = [graphBaseUrl w
        @ ''/security/dataSecurityAndGovernance/sensitivityLabels/computeInheritance(labelIds=[''
        @ quoted_list_spec labelids
        @ ''],locale='en-US',contentFormats=["File"])'']
   \<and> (\<exists>before after.
        map url (new_requests w (snd (invokeLabelInheritance accessToken [''id-1'', ''id-2''] w)))
          = [before @ ''labelIds=["id-1","id-2"]'' @ after])\<close>
proof -
  have general: "map url (new_requests w (snd (invokeLabelInheritance accessToken ids w)))
     = [graphBaseUrl w
        @ ''/security/dataSecurityAndGovernance/sensitivityLabels/computeInheritance(labelIds=[''
        @ quoted_list_spec ids
        @ ''],locale='' @ [CHR 0x27] @ ''en-US'' @ [CHR 0x27] @ '',contentFormats=[''
        @ quoted ''File'' @ ''])'']" for ids
    by (simp add: invokeLabelInheritance_def fetch_label_info_eq labelInfoRequest_def Let_def
        join_quoted)
  have example: "map url (new_requests w (snd (invokeLabelInheritance accessToken [''id-1'', ''id-2''] w)))
      = [(graphBaseUrl w
           @ ''/security/dataSecurityAndGovernance/sensitivityLabels/computeInheritance('')
         @ (''labelIds=['' @ quoted_list_spec [''id-1'', ''id-2''] @ '']'')
         @ ('',locale='' @ [CHR 0x27] @ ''en-US'' @ [CHR 0x27] @ '',contentFormats=[''
            @ quoted ''File'' @ ''])'')]"
    unfolding general by simp
  have "\<exists>before after.
        map url (new_requests w (snd (invokeLabelInheritance accessToken [''id-1'', ''id-2''] w)))
          = [before @ (''labelIds=['' @ quoted_list_spec [''id-1'', ''id-2''] @ '']'') @ after]"
    unfolding example by blast
  then show ?thesis
    unfolding general by (simp add: quoted_def)
qed

lemma graphBaseUrl_stripped:
  assumes "GRAPH_BASE_URL w = Some (gb @ replicate m CHR ''/'')" "gb \<noteq> []" "last gb \<noteq> CHR ''/''"
  shows "graphBaseUrl w = gb"
  using assms by (simp add: graphBaseUrl_def replace_trailing_slashes_append)

lemma replace_trailing_slashes_decompose:
  "(\<exists>k. u = replace_trailing_slashes u @ replicate k CHR ''/'')
    \<and> (replace_trailing_slashes u = [] \<or> last (replace_trailing_slashes u) \<noteq> CHR ''/'')"
proof (induction u)
  case Nil
  show ?case by simp
next
  case (Cons c cs)
  show ?case
  proof (cases "c = CHR ''/'' \<and> list_all (\<lambda>d. d = CHR ''/'') cs")
    case True
    then have "\<forall>y \<in> set (c # cs). y = CHR ''/''"
      by (simp add: list_all_iff)
    then have "replicate (length (c # cs)) CHR ''/'' = c # cs"
      by (rule replicate_length_same)
    then have "c # cs = replace_trailing_slashes (c # cs) @ replicate (length (c # cs)) CHR ''/''"
      using True by (simp del: replicate.simps length_Cons)
    moreover have "replace_trailing_slashes (c # cs) = []"
      using True by simp
    ultimately show ?thesis by blast
  next
    case False
    then have strip: "replace_trailing_slashes (c # cs) = c # replace_trailing_slashes cs"
      by simp
    from Cons.IH obtain k where k: "cs = replace_trailing_slashes cs @ replicate k CHR ''/''"
      and l: "replace_trailing_slashes cs = [] \<or> last (replace_trailing_slashes cs) \<noteq> CHR ''/''"
      by blast
    have "c # cs = (c # replace_trailing_slashes cs) @ replicate k CHR ''/''"
      using k by simp
    moreover have "last (c # replace_trailing_slashes cs) \<noteq> CHR ''/''"
    proof (cases "replace_trailing_slashes cs = []")
      case True
      with k have "cs = replicate k CHR ''/''" by simp
      then have "list_all (\<lambda>d. d = CHR ''/'') cs"
        by (metis (mono_tags, lifting) list_all_iff in_set_replicate)
      with False True show ?thesis by simp
    next
      case False
      with l show ?thesis by simp
    qed
    ultimately show ?thesis
      unfolding strip by blast
  qed
qed

text \<open>
  C10. Let the configured Purview base URL be a string \<open>pb\<close> that does not end in a
  slash, followed by any number \<open>n\<close> of slashes. Then the protection-scope and the
  process-content request go to \<open>pb\<close>, one slash and the fixed path, whatever \<open>n\<close> is.
  Likewise, when the Graph base URL is a non-empty \<open>gb\<close> that does not end in a slash,
  followed by any number of slashes, the three label requests go to \<open>gb\<close> followed by
  their path. Every string \<open>u\<close> is of this form: what the stripping returns for \<open>u\<close>
  does not end in a slash, and \<open>u\<close> is that string followed by slashes only.
\<close>

theorem base_url_trailing_slashes:
  "(PURVIEW_BASE_URL w = Some (pb @ replicate n CHR ''/'')
      \<and> (pb = [] \<or> last pb \<noteq> CHR ''/'') \<and> pb @ replicate n CHR ''/'' \<noteq> [] \<longrightarrow>
        map url (new_requests w (snd (invokeProtectionScopeApi accessToken w)))
          = [pb @ ''/'' @ ''me/dataSecurityAndGovernance/protectionScopes/compute'']
      \<and> map url (new_requests w (snd (invokeProcessContentApi accessToken etag requestBody w)))
          = [pb @ ''/'' @ ''me/dataSecurityAndGovernance/processContent''])
   \<and> (GRAPH_BASE_URL w = Some (gb @ replicate m CHR ''/'') \<and> gb \<noteq> [] \<and> last gb \<noteq> CHR ''/'' \<longrightarrow>
        map url (new_requests w (snd (invokeUserRightsForLables accessToken w)))
          = [gb @ ''/security/dataSecurityAndGovernance/sensitivityLabels?$expand=rights,sublabels'']
      \<and> map url (new_requests w (snd (invokeUserRightsForSubLables accessToken labelId w)))
          = [gb @ ''/security/dataSecurityAndGovernance/sensitivityLabels/'' @ labelId
             @ ''/rights'']
      \<and> (\<exists>rest. map url (new_requests w (snd (invokeLabelInheritance accessToken labelids w)))
          = [gb @ ''/security/dataSecurityAndGovernance/sensitivityLabels/computeInheritance(''
             @ rest]))
   \<and> (\<exists>k. u = replace_trailing_slashes u @ replicate k CHR ''/'')
   \<and> (replace_trailing_slashes u = [] \<or> last (replace_trailing_slashes u) \<noteq> CHR ''/'')"
proof (intro conjI impI)
  assume p: "PURVIEW_BASE_URL w = Some (pb @ replicate n CHR ''/'')
      \<and> (pb = [] \<or> last pb \<noteq> CHR ''/'') \<and> pb @ replicate n CHR ''/'' \<noteq> []"
  then have strip: "replace_trailing_slashes (pb @ replicate n CHR ''/'') = pb"
    by (simp add: replace_trailing_slashes_append)
  from p have cfg: "PURVIEW_BASE_URL w = Some (pb @ replicate n CHR ''/'')"
      "pb @ replicate n CHR ''/'' \<noteq> []"
    by simp_all
  show "map url (new_requests w (snd (invokeProtectionScopeApi accessToken w)))
          = [pb @ ''/'' @ ''me/dataSecurityAndGovernance/protectionScopes/compute'']"
    by (simp add: invokeProtectionScopeApi_configured [OF cfg] protectionScopeRequest_def strip
        replace_leading_slashes_def)
  show "map url (new_requests w (snd (invokeProcessContentApi accessToken etag requestBody w)))
          = [pb @ ''/'' @ ''me/dataSecurityAndGovernance/processContent'']"
    by (simp add: invokeProcessContentApi_configured [OF cfg] processContentRequest_def strip
        replace_leading_slashes_def)
next
  assume g: "GRAPH_BASE_URL w = Some (gb @ replicate m CHR ''/'') \<and> gb \<noteq> []
      \<and> last gb \<noteq> CHR ''/''"
  then have base: "graphBaseUrl w = gb"
    by (simp add: graphBaseUrl_stripped)
  show "map url (new_requests w (snd (invokeUserRightsForLables accessToken w)))
          = [gb @ ''/security/dataSecurityAndGovernance/sensitivityLabels?$expand=rights,sublabels'']"
    by (simp add: invokeUserRightsForLables_def fetch_label_info_eq labelInfoRequest_def base)
  show "map url (new_requests w (snd (invokeUserRightsForSubLables accessToken labelId w)))
          = [gb @ ''/security/dataSecurityAndGovernance/sensitivityLabels/'' @ labelId
             @ ''/rights'']"
    by (simp add: invokeUserRightsForSubLables_def fetch_label_info_eq labelInfoRequest_def base)
  show "\<exists>rest. map url (new_requests w (snd (invokeLabelInheritance accessToken labelids w)))
          = [gb @ ''/security/dataSecurityAndGovernance/sensitivityLabels/computeInheritance(''
             @ rest]"
    by (simp add: invokeLabelInheritance_def fetch_label_info_eq labelInfoRequest_def base
        Let_def)
next
  show "\<exists>k. u = replace_trailing_slashes u @ replicate k CHR ''/''"
    using replace_trailing_slashes_decompose [of u] by blast
  show "replace_trailing_slashes u = [] \<or> last (replace_trailing_slashes u) \<noteq> CHR ''/''"
    using replace_trailing_slashes_decompose [of u] by blast
qed

theorem base_url_trailing_slashes_witness:
  "PURVIEW_BASE_URL demo_world = Some (''https://purview.example/v1.0'' @ replicate (Suc (Suc 0)) CHR ''/'')
   \<and> last ''https://purview.example/v1.0'' = CHR ''0''
   \<and> map url (new_requests demo_world (snd (invokeProtectionScopeApi ''token'' demo_world)))
       = [''https://purview.example/v1.0/me/dataSecurityAndGovernance/protectionScopes/compute'']
   \<and> map url (new_requests demo_world
         (snd (invokeProcessContentApi ''token'' None (JObject []) demo_world)))
       = [''https://purview.example/v1.0/me/dataSecurityAndGovernance/processContent'']
   \<and> GRAPH_BASE_URL demo_world = Some (''https://graph.example/beta'' @ replicate (Suc 0) CHR ''/'')
   \<and> map url (new_requests demo_world (snd (invokeUserRightsForLables ''token'' demo_world)))
       = [''https://graph.example/beta/security/dataSecurityAndGovernance/sensitivityLabels?$expand=rights,sublabels'']
   \<and> map url (new_requests demo_world
         (snd (invokeUserRightsForSubLables ''token'' ''label-7'' demo_world)))
       = [''https://graph.example/beta/security/dataSecurityAndGovernance/sensitivityLabels/label-7/rights'']"
proof -
  have p: "PURVIEW_BASE_URL demo_world
      = Some (''https://purview.example/v1.0'' @ replicate (Suc (Suc 0)) CHR ''/'')"
    and g: "GRAPH_BASE_URL demo_world
      = Some (''https://graph.example/beta'' @ replicate (Suc 0) CHR ''/'')"
    by (simp_all add: demo_world_def)
  show ?thesis
    using p g
      base_url_trailing_slashes [of demo_world "''https://purview.example/v1.0''" "Suc (Suc 0)"
        "''token''" None "JObject []" "''https://graph.example/beta''" "Suc 0" "''label-7''" "[]"]
    by simp
qed

section \<open>The orchestrator: which submissions a run makes\<close>

lemma constructProcessContentRequestBody_keeps:
  "PURVIEW_BASE_URL (snd (constructProcessContentRequestBody t name n sess act app w))
     = PURVIEW_BASE_URL w"
  "requests (snd (constructProcessContentRequestBody t name n sess act app w)) = requests w"
  "transport (snd (constructProcessContentRequestBody t name n sess act app w)) = transport w"
  by (simp_all add: constructProcessContentRequestBody_world)

lemma is_submission_payload:
  "is_submission t act n
     (processContentRequest accessToken etag
        (fst (constructProcessContentRequestBody t name n sess act app w)) b)"
  by (simp add: is_submission_def processContentRequest_def payload_fields del: json_at.simps)

text \<open>
  One submission: the payload is built, then handed to \<open>invokeProcessContentApi\<close>. If
  the call returns, exactly one request was issued; if it throws, at most one. The
  request, where there is one, is the submission of the text under its tag and number.
\<close>

lemma submission_outcome:
  assumes "invokeProcessContentApi accessToken etag
             (fst (constructProcessContentRequestBody t name n sess act app w))
             (snd (constructProcessContentRequestBody t name n sess act app w)) = (res, w')"
  shows "PURVIEW_BASE_URL w' = PURVIEW_BASE_URL w"
    and "(\<exists>q. new_requests w w' = [q] \<and> requests w' = requests w @ [q] \<and> is_submission t act n q)
          \<or> (isl res \<and> requests w' = requests w \<and> new_requests w w' = [])"
proof -
  let ?doc = "fst (constructProcessContentRequestBody t name n sess act app w)"
  let ?w1 = "snd (constructProcessContentRequestBody t name n sess act app w)"
  have keeps: "PURVIEW_BASE_URL ?w1 = PURVIEW_BASE_URL w" "requests ?w1 = requests w"
    by (simp_all add: constructProcessContentRequestBody_keeps)
  show "PURVIEW_BASE_URL w' = PURVIEW_BASE_URL w"
  proof (cases "PURVIEW_BASE_URL ?w1 = None \<or> PURVIEW_BASE_URL ?w1 = Some []")
    case True
    with assms keeps show ?thesis
      by (auto simp: invokeProcessContentApi_unconfigured)
  next
    case False
    then obtain b where b: "PURVIEW_BASE_URL ?w1 = Some b" "b \<noteq> []" by auto
    with assms keeps show ?thesis
      by (auto simp: invokeProcessContentApi_configured [OF b])
  qed
  show "(\<exists>q. new_requests w w' = [q] \<and> requests w' = requests w @ [q] \<and> is_submission t act n q)
          \<or> (isl res \<and> requests w' = requests w \<and> new_requests w w' = [])"
  proof (cases "PURVIEW_BASE_URL ?w1 = None \<or> PURVIEW_BASE_URL ?w1 = Some []")
    case True
    with assms keeps show ?thesis
      by (auto simp: invokeProcessContentApi_unconfigured new_requests_def)
  next
    case False
    then obtain b where b: "PURVIEW_BASE_URL ?w1 = Some b" "b \<noteq> []" by auto
    let ?q = "processContentRequest accessToken etag ?doc b"
    from assms have "w' = ?w1\<lparr>requests := requests ?w1 @ [?q]\<rparr>"
      by (simp add: invokeProcessContentApi_configured [OF b])
    then have "requests w' = requests w @ [?q]"
      using keeps by simp
    moreover from this have "new_requests w w' = [?q]"
      by (simp add: new_requests_def)
    moreover have "is_submission t act n ?q"
      by (rule is_submission_payload)
    ultimately show ?thesis by blast
  qed
qed

lemma submit_outcome:
  assumes "submit accessToken etag name app t act n sess w = (res, w')"
  shows "PURVIEW_BASE_URL w' = PURVIEW_BASE_URL w"
    and "(\<exists>q. new_requests w w' = [q] \<and> requests w' = requests w @ [q] \<and> is_submission t act n q)
          \<or> (isl res \<and> requests w' = requests w \<and> new_requests w w' = [])"
  using assms submission_outcome [of accessToken etag t name n sess act app w res w']
  by (simp_all add: submit_def case_prod_beta)

lemma enqueue_by_submit:
  "enqueueOfflinePurviewTasksAsync accessToken etag name app up down prompt response sess n w =
     (if up = ''evaluateOffline'' then
        (case submit accessToken etag name app prompt ''uploadText'' n sess w of
           (Inl e, w2) \<Rightarrow> (Inl e, w2)
         | (Inr x, w2) \<Rightarrow>
             if down = ''evaluateOffline'' then
               (case submit accessToken etag name app response ''downloadText'' (number_add n 1) sess w2 of
                  (Inl e, w3) \<Rightarrow> (Inl e, w3)
                | (Inr y, w3) \<Rightarrow> (Inr ''OK'', w3))
             else (Inr ''OK'', w2))
      else if down = ''evaluateOffline'' then
        (case submit accessToken etag name app response ''downloadText'' (number_add n 1) sess w of
           (Inl e, w3) \<Rightarrow> (Inl e, w3)
         | (Inr y, w3) \<Rightarrow> (Inr ''OK'', w3))
      else (Inr ''OK'', w))"
  by (simp add: enqueueOfflinePurviewTasksAsync_def submit_def case_prod_beta
      split: sum.split prod.split)

lemma is_submission_tag:
  assumes "is_submission t a n q" "is_submission t' a' n' q"
  shows "a = a'"
  using assms by (auto simp: is_submission_def split: option.splits)

text \<open>
  C2. When the upload mode is \<^verbatim>\<open>evaluateOffline\<close> and the first submission fails with
  an error \<open>e\<close>, leaving the world \<open>w'\<close>, the orchestrator fails with this same \<open>e\<close> and
  leaves this same \<open>w'\<close>, whatever the download mode: it does not return \<^verbatim>\<open>OK\<close>, and
  among the requests of the run, of which there is at most one, none is the submission
  of the response text.
\<close>

theorem first_submission_failure_aborts:
  assumes "uploadTextMode = ''evaluateOffline''"
    and "submit accessToken etag name applicationId prompt ''uploadText'' sequenceNo sessionId w
           = (Inl e, w')"
  shows "enqueueOfflinePurviewTasksAsync accessToken etag name applicationId uploadTextMode
           downloadTextMode prompt response sessionId sequenceNo w = (Inl e, w')
    \<and> \<not> list_ex (is_submission response ''downloadText'' (sequenceNo + 1)) (new_requests w w')
    \<and> length (new_requests w w') \<le> 1"
proof -
  have run: "enqueueOfflinePurviewTasksAsync accessToken etag name applicationId uploadTextMode
           downloadTextMode prompt response sessionId sequenceNo w = (Inl e, w')"
    using assms by (simp add: enqueue_by_submit)
  from submit_outcome(2) [OF assms(2)]
  consider (one) q where "new_requests w w' = [q]" "is_submission prompt ''uploadText'' sequenceNo q"
    | (none) "new_requests w w' = []"
    by blast
  then have "\<not> list_ex (is_submission response ''downloadText'' (sequenceNo + 1))
                 (new_requests w w')
             \<and> length (new_requests w w') \<le> 1"
  proof cases
    case one
    have "\<not> is_submission response ''downloadText'' (sequenceNo + 1) q"
      using is_submission_tag [OF one(2)] by auto
    with one(1) show ?thesis by simp
  next
    case none
    then show ?thesis by simp
  qed
  with run show ?thesis by simp
qed

lemma submit_new_requests:
  assumes "submit accessToken etag name app t act n sess w = (res, w')"
  shows "PURVIEW_BASE_URL w \<noteq> None \<and> PURVIEW_BASE_URL w \<noteq> Some [] \<Longrightarrow>
           \<exists>q. requests w' = requests w @ [q] \<and> is_submission t act n q"
    and "PURVIEW_BASE_URL w = None \<or> PURVIEW_BASE_URL w = Some [] \<Longrightarrow>
           requests w' = requests w \<and> isl res"
    and "\<not> isl res \<Longrightarrow> PURVIEW_BASE_URL w \<noteq> None \<and> PURVIEW_BASE_URL w \<noteq> Some []"
proof -
  let ?doc = "fst (constructProcessContentRequestBody t name n sess act app w)"
  let ?w1 = "snd (constructProcessContentRequestBody t name n sess act app w)"
  have call: "invokeProcessContentApi accessToken etag ?doc ?w1 = (res, w')"
    using assms by (simp add: submit_def case_prod_beta)
  have keeps: "PURVIEW_BASE_URL ?w1 = PURVIEW_BASE_URL w" "requests ?w1 = requests w"
    by (simp_all add: constructProcessContentRequestBody_keeps)
  show "\<exists>q. requests w' = requests w @ [q] \<and> is_submission t act n q"
    if "PURVIEW_BASE_URL w \<noteq> None \<and> PURVIEW_BASE_URL w \<noteq> Some []"
  proof -
    from that obtain b where b: "PURVIEW_BASE_URL ?w1 = Some b" "b \<noteq> []"
      using keeps(1) by (cases "PURVIEW_BASE_URL w") auto
    let ?q = "processContentRequest accessToken etag ?doc b"
    from call have "w' = ?w1\<lparr>requests := requests ?w1 @ [?q]\<rparr>"
      by (simp add: invokeProcessContentApi_configured [OF b])
    then have "requests w' = requests w @ [?q]"
      using keeps(2) by simp
    moreover have "is_submission t act n ?q"
      by (rule is_submission_payload)
    ultimately show ?thesis by blast
  qed
  have unconfigured: "requests w' = requests w \<and> isl res"
    if "PURVIEW_BASE_URL w = None \<or> PURVIEW_BASE_URL w = Some []"
  proof -
    from that have "PURVIEW_BASE_URL ?w1 = None \<or> PURVIEW_BASE_URL ?w1 = Some []"
      using keeps(1) by simp
    from call invokeProcessContentApi_unconfigured [OF this, of accessToken etag ?doc]
    show ?thesis
      using keeps(2) by auto
  qed
  then show "PURVIEW_BASE_URL w = None \<or> PURVIEW_BASE_URL w = Some [] \<Longrightarrow>
           requests w' = requests w \<and> isl res" .
  show "PURVIEW_BASE_URL w \<noteq> None \<and> PURVIEW_BASE_URL w \<noteq> Some []" if "\<not> isl res"
  proof (rule ccontr)
    assume "\<not> (PURVIEW_BASE_URL w \<noteq> None \<and> PURVIEW_BASE_URL w \<noteq> Some [])"
    then have "PURVIEW_BASE_URL w = None \<or> PURVIEW_BASE_URL w = Some []" by simp
    from unconfigured [OF this] that show False by simp
  qed
qed

lemma number_add_exact: "\<bar>n\<bar> < 2 ^ 53 \<Longrightarrow> number_add n 1 = n + 1"
proof -
  assume "\<bar>n\<bar> < 2 ^ 53"
  then have "\<bar>n + 1\<bar> \<le> 2 ^ 53" by simp
  then show ?thesis by (simp only: number_add_def round_to_double_def if_True)
qed

text \<open>From \<open>2 ^ 53\<close> on the sum is rounded: adding 1 to \<open>2 ^ 53\<close> gives \<open>2 ^ 53\<close>.\<close>

lemma number_add_rounds: "number_add 9007199254740992 1 = 9007199254740992"
  by (simp add: number_add_def round_to_double_def bit_length.simps Let_def)

text \<open>
  C1, amended. Let the sequence number be below \<open>2 ^ 53\<close> in magnitude, so that
  \<^verbatim>\<open>sequenceNo + 1\<close> is the integer sum. Among the requests of a run, a submission of
  the prompt tagged \<^verbatim>\<open>uploadText\<close> at \<open>sequenceNo\<close> is found if and only if the
  upload mode is \<^verbatim>\<open>evaluateOffline\<close> and the Purview base URL is configured; a
  submission of the response tagged \<^verbatim>\<open>downloadText\<close> at \<open>sequenceNo + 1\<close> is found if
  and only if the download mode is \<^verbatim>\<open>evaluateOffline\<close>, the base URL is configured and
  the upload branch did not fail (it was skipped, or its submission succeeded). When
  neither mode is \<^verbatim>\<open>evaluateOffline\<close> the orchestrator returns \<^verbatim>\<open>OK\<close> and leaves the
  world as it found it. In every run that does not fail the result is \<^verbatim>\<open>OK\<close>, each
  of the two submissions is made if and only if its mode is \<^verbatim>\<open>evaluateOffline\<close>, and
  one request is issued for each such mode and no other.
\<close>

theorem enqueue_submissions:
  fixes accessToken name applicationId uploadTextMode downloadTextMode prompt response
    sessionId :: string and etag :: "string option" and sequenceNo :: int and w :: world
  defines "run \<equiv> enqueueOfflinePurviewTasksAsync accessToken etag name applicationId
                    uploadTextMode downloadTextMode prompt response sessionId sequenceNo w"
  defines "new \<equiv> new_requests w (snd run)"
  defines "configured \<equiv> PURVIEW_BASE_URL w \<noteq> None \<and> PURVIEW_BASE_URL w \<noteq> Some []"
  defines "upload \<equiv> submit accessToken etag name applicationId prompt ''uploadText''
                       sequenceNo sessionId w"
  assumes range: "\<bar>sequenceNo\<bar> < 2 ^ 53"
  shows "(list_ex (is_submission prompt ''uploadText'' sequenceNo) new
            \<longleftrightarrow> uploadTextMode = ''evaluateOffline'' \<and> configured)
    \<and> (list_ex (is_submission response ''downloadText'' (sequenceNo + 1)) new
            \<longleftrightarrow> downloadTextMode = ''evaluateOffline'' \<and> configured
                \<and> (uploadTextMode = ''evaluateOffline'' \<longrightarrow> \<not> isl (fst upload)))
    \<and> (uploadTextMode \<noteq> ''evaluateOffline'' \<and> downloadTextMode \<noteq> ''evaluateOffline'' \<longrightarrow>
          run = (Inr ''OK'', w))
    \<and> (\<not> isl (fst run) \<longrightarrow>
          fst run = Inr ''OK''
          \<and> (list_ex (is_submission prompt ''uploadText'' sequenceNo) new
                \<longleftrightarrow> uploadTextMode = ''evaluateOffline'')
          \<and> (list_ex (is_submission response ''downloadText'' (sequenceNo + 1)) new
                \<longleftrightarrow> downloadTextMode = ''evaluateOffline'')
          \<and> length new = (if uploadTextMode = ''evaluateOffline'' then 1 else 0)
                         + (if downloadTextMode = ''evaluateOffline'' then 1 else 0))"
proof -
  let ?up = "is_submission prompt ''uploadText'' sequenceNo"
  let ?down = "is_submission response ''downloadText'' (sequenceNo + 1)"
  let ?U = "uploadTextMode = ''evaluateOffline''"
  let ?D = "downloadTextMode = ''evaluateOffline''"
  note exact = number_add_exact [OF range]
  have not_down: "\<not> ?down q" if "?up q" for q
    using is_submission_tag [OF that, of response "''downloadText''" "sequenceNo + 1"] by auto
  have not_up: "\<not> ?up q" if "?down q" for q
    using not_down that by blast
  obtain res2 w2 where first: "upload = (res2, w2)"
    by (cases upload)
  note first' = first [unfolded upload_def]
  have same: "PURVIEW_BASE_URL w2 = PURVIEW_BASE_URL w"
    using submit_outcome(1) [OF first'] .
  obtain res3 w3 where second:
    "submit accessToken etag name applicationId response ''downloadText'' (sequenceNo + 1)
       sessionId w2 = (res3, w3)"
    by (cases "submit accessToken etag name applicationId response ''downloadText''
                 (sequenceNo + 1) sessionId w2")
  obtain res4 w4 where only:
    "submit accessToken etag name applicationId response ''downloadText'' (sequenceNo + 1)
       sessionId w = (res4, w4)"
    by (cases "submit accessToken etag name applicationId response ''downloadText''
                 (sequenceNo + 1) sessionId w")
  consider (neither) "\<not> ?U" "\<not> ?D"
    | (download) "\<not> ?U" "?D"
    | (failed) "?U" "isl res2"
    | (upload) "?U" "\<not> isl res2" "\<not> ?D"
    | (both) "?U" "\<not> isl res2" "?D"
    by blast
  then show ?thesis
  proof cases
    case neither
    then have "run = (Inr ''OK'', w)"
      by (simp add: run_def enqueue_by_submit exact)
    with neither show ?thesis
      by (simp add: new_def)
  next
    case download
    have run: "run = (case res4 of Inl e \<Rightarrow> Inl e | Inr y \<Rightarrow> Inr ''OK'', w4)"
      using download only by (cases res4) (simp_all add: run_def enqueue_by_submit exact)
    show ?thesis
    proof (cases configured)
      case True
      then obtain q where q: "requests w4 = requests w @ [q]" "?down q"
        using submit_new_requests(1) [OF only] by (auto simp: configured_def)
      then have "new = [q]"
        by (simp add: new_def run new_requests_def)
      with download True q(2) not_up [OF q(2)] show ?thesis
        by (cases res4) (simp_all add: run)
    next
      case False
      then have "requests w4 = requests w" "isl res4"
        using submit_new_requests(2) [OF only] by (auto simp: configured_def)
      then have "new = []" "isl (fst run)"
        by (auto simp: new_def run new_requests_def isl_def)
      with download False show ?thesis by simp
    qed
  next
    case failed
    from failed obtain e where e: "res2 = Inl e" by (cases res2) simp_all
    have run: "run = (Inl e, w2)"
      using failed(1) first' e by (simp add: run_def enqueue_by_submit exact)
    have up: "isl (fst upload)" using first e by simp
    show ?thesis
    proof (cases configured)
      case True
      then obtain q where q: "requests w2 = requests w @ [q]" "?up q"
        using submit_new_requests(1) [OF first'] by (auto simp: configured_def)
      then have "new = [q]"
        by (simp add: new_def run new_requests_def)
      with failed(1) True q(2) not_down [OF q(2)] up show ?thesis
        by (simp add: run)
    next
      case False
      then have "requests w2 = requests w"
        using submit_new_requests(2) [OF first'] by (auto simp: configured_def)
      then have "new = []"
        by (simp add: new_def run new_requests_def)
      with failed(1) False show ?thesis by (simp add: run)
    qed
  next
    case upload
    have run: "run = (Inr ''OK'', w2)"
      using upload first' by (cases res2) (simp_all add: run_def enqueue_by_submit exact)
    have c: configured
      using submit_new_requests(3) [OF first' upload(2)] by (simp add: configured_def)
    then obtain q where q: "requests w2 = requests w @ [q]" "?up q"
      using submit_new_requests(1) [OF first'] by (auto simp: configured_def)
    then have "new = [q]"
      by (simp add: new_def run new_requests_def)
    with upload(1,3) c q(2) not_down [OF q(2)] show ?thesis
      by (simp add: run)
  next
    case both
    have run: "run = (case res3 of Inl e \<Rightarrow> Inl e | Inr y \<Rightarrow> Inr ''OK'', w3)"
      using both first' second
      by (cases res2; cases res3) (simp_all add: run_def enqueue_by_submit exact)
    have up: "\<not> isl (fst upload)" using first both(2) by simp
    have c: configured
      using submit_new_requests(3) [OF first' both(2)] by (simp add: configured_def)
    then obtain q1 where q1: "requests w2 = requests w @ [q1]" "?up q1"
      using submit_new_requests(1) [OF first'] by (auto simp: configured_def)
    from c same obtain q2 where q2: "requests w3 = requests w2 @ [q2]" "?down q2"
      using submit_new_requests(1) [OF second] by (auto simp: configured_def)
    have "new = [q1, q2]"
      using q1(1) q2(1) by (simp add: new_def run new_requests_def)
    with both(1,3) c q1(2) q2(2) up show ?thesis
      by (cases res3) (simp_all add: run)
  qed
qed

lemma submit_constant_transport:
  assumes "PURVIEW_BASE_URL w = Some b" "b \<noteq> []" "\<And>k q. transport w k q = Inr r"
  shows "fst (submit accessToken etag name app t act n sess w)
           = (if ok r then Inr (body_text r, response_headers r) else Inl (api_call_failed r))"
    and "PURVIEW_BASE_URL (snd (submit accessToken etag name app t act n sess w)) = Some b"
    and "transport (snd (submit accessToken etag name app t act n sess w)) = transport w"
proof -
  let ?w1 = "snd (constructProcessContentRequestBody t name n sess act app w)"
  have cfg: "PURVIEW_BASE_URL ?w1 = Some b"
    using assms(1) by (simp add: constructProcessContentRequestBody_keeps)
  have tr: "transport ?w1 k q = Inr r" for k q
    using assms(3) by (simp add: constructProcessContentRequestBody_keeps)
  show "fst (submit accessToken etag name app t act n sess w)
           = (if ok r then Inr (body_text r, response_headers r) else Inl (api_call_failed r))"
    by (simp add: submit_def case_prod_beta invokeProcessContentApi_configured [OF cfg assms(2)] tr)
  show "PURVIEW_BASE_URL (snd (submit accessToken etag name app t act n sess w)) = Some b"
    by (simp add: submit_def case_prod_beta invokeProcessContentApi_configured [OF cfg assms(2)] cfg)
  show "transport (snd (submit accessToken etag name app t act n sess w)) = transport w"
    by (simp add: submit_def case_prod_beta invokeProcessContentApi_configured [OF cfg assms(2)]
        constructProcessContentRequestBody_keeps)
qed

lemma demo_world_accepts:
  "PURVIEW_BASE_URL demo_world = Some ''https://purview.example/v1.0//''"
  "transport demo_world k q
     = Inr \<lparr>status = 200, response_headers = [(''etag'', ''abc'')],
            body_text = [CHR ''{'', CHR 0x22, CHR ''o'', CHR ''k'', CHR 0x22, CHR '':'',
                         CHR ''t'', CHR ''r'', CHR ''u'', CHR ''e'', CHR ''}'']\<rparr>"
  by (simp_all add: demo_world_def)

lemma forbidden_world_refuses:
  "PURVIEW_BASE_URL forbidden_world = Some ''https://purview.example/v1.0//''"
  "transport forbidden_world k q
     = Inr \<lparr>status = 403, response_headers = [], body_text = ''Forbidden''\<rparr>"
  by (simp_all add: forbidden_world_def demo_world_def)

lemma demo_run_returns:
  "fst (enqueueOfflinePurviewTasksAsync ''token'' (Some ''abc'') ''app'' ''app-id'' up down
          ''hi'' ''hello'' ''sess-1'' 3 demo_world) = Inr ''OK''"
proof -
  let ?b = "''https://purview.example/v1.0//''"
  let ?r = "\<lparr>status = 200, response_headers = [(''etag'', ''abc'')],
            body_text = [CHR ''{'', CHR 0x22, CHR ''o'', CHR ''k'', CHR 0x22, CHR '':'',
                         CHR ''t'', CHR ''r'', CHR ''u'', CHR ''e'', CHR ''}'']\<rparr>"
  have ok: "ok ?r" by (simp add: ok_def)
  have one: "fst (submit ''token'' (Some ''abc'') ''app'' ''app-id'' t act n ''sess-1'' w)
               = Inr (body_text ?r, response_headers ?r)"
    if "PURVIEW_BASE_URL w = Some ?b" "\<And>k q. transport w k q = Inr ?r" for t act n w
    using submit_constant_transport(1) [OF that(1) _ that(2)] ok by simp
  let ?w2 = "snd (submit ''token'' (Some ''abc'') ''app'' ''app-id'' ''hi'' ''uploadText'' 3
                    ''sess-1'' demo_world)"
  have w2: "PURVIEW_BASE_URL ?w2 = Some ?b" "\<And>k q. transport ?w2 k q = Inr ?r"
    using submit_constant_transport(2,3) [OF demo_world_accepts(1) _ demo_world_accepts(2)]
    by (simp_all add: demo_world_accepts(2))
  show ?thesis
    using one [OF demo_world_accepts] one [OF w2]
    by (simp add: enqueue_by_submit split_beta split: sum.split)
qed

lemma forbidden_upload:
  "fst (submit ''token'' (Some ''abc'') ''app'' ''app-id'' ''hi'' ''uploadText'' 3 ''sess-1''
          forbidden_world) = Inl (Error ''API call failed with status 403: Forbidden'')"
  using submit_constant_transport(1) [OF forbidden_world_refuses(1) _ forbidden_world_refuses(2)]
  by (simp add: ok_def api_call_failed_def status_403)

text \<open>
  C1, as the claim words it, at a run that fails: in \<open>forbidden_world\<close> both modes are
  \<^verbatim>\<open>evaluateOffline\<close> and the upload is refused with status 403. The download mode
  equals \<^verbatim>\<open>evaluateOffline\<close>, yet no submission of the response is made.
\<close>

theorem download_skipped_counterexample:
  "\<not> (list_ex (is_submission ''hello'' ''downloadText'' (3 + 1))
        (new_requests forbidden_world
           (snd (enqueueOfflinePurviewTasksAsync ''token'' (Some ''abc'') ''app'' ''app-id''
                   ''evaluateOffline'' ''evaluateOffline'' ''hi'' ''hello'' ''sess-1'' 3
                   forbidden_world)))
       \<longleftrightarrow> ''evaluateOffline'' = ''evaluateOffline'')"
proof -
  let ?first = "submit ''token'' (Some ''abc'') ''app'' ''app-id'' ''hi'' ''uploadText'' 3
                  ''sess-1'' forbidden_world"
  have first: "?first = (Inl (Error ''API call failed with status 403: Forbidden''), snd ?first)"
    using forbidden_upload by (simp add: prod_eq_iff)
  have run: "snd (enqueueOfflinePurviewTasksAsync ''token'' (Some ''abc'') ''app'' ''app-id''
                   ''evaluateOffline'' ''evaluateOffline'' ''hi'' ''hello'' ''sess-1'' 3
                   forbidden_world) = snd ?first"
    by (subst enqueue_by_submit, subst first) simp
  from submit_outcome(2) [OF first]
  consider (one) q where "new_requests forbidden_world (snd ?first) = [q]"
        "is_submission ''hi'' ''uploadText'' 3 q"
    | (none) "new_requests forbidden_world (snd ?first) = []"
    by blast
  then have "\<not> list_ex (is_submission ''hello'' ''downloadText'' (3 + 1))
                 (new_requests forbidden_world (snd ?first))"
  proof cases
    case one
    have "\<not> is_submission ''hello'' ''downloadText'' (3 + 1) q"
      using is_submission_tag [OF one(2), of "''hello''" "''downloadText''" "3 + 1"] by auto
    with one(1) show ?thesis by simp
  next
    case none
    then show ?thesis by simp
  qed
  then show ?thesis
    unfolding run by simp
qed

theorem enqueue_submissions_witness:
  "\<bar>3 :: int\<bar> < 2 ^ 53
   \<and> enqueueOfflinePurviewTasksAsync ''token'' (Some ''abc'') ''app'' ''app-id''
       ''evaluateInline'' ''skip'' ''hi'' ''hello'' ''sess-1'' 3 demo_world
     = (Inr ''OK'', demo_world)
   \<and> fst (enqueueOfflinePurviewTasksAsync ''token'' (Some ''abc'') ''app'' ''app-id''
            ''evaluateOffline'' ''skip'' ''hi'' ''hello'' ''sess-1'' 3 demo_world) = Inr ''OK''
   \<and> list_ex (is_submission ''hi'' ''uploadText'' 3)
        (new_requests demo_world
           (snd (enqueueOfflinePurviewTasksAsync ''token'' (Some ''abc'') ''app'' ''app-id''
                   ''evaluateOffline'' ''skip'' ''hi'' ''hello'' ''sess-1'' 3 demo_world)))
   \<and> length (new_requests demo_world
           (snd (enqueueOfflinePurviewTasksAsync ''token'' (Some ''abc'') ''app'' ''app-id''
                   ''evaluateOffline'' ''skip'' ''hi'' ''hello'' ''sess-1'' 3 demo_world))) = 1
   \<and> fst (enqueueOfflinePurviewTasksAsync ''token'' (Some ''abc'') ''app'' ''app-id''
            ''evaluateOffline'' ''evaluateOffline'' ''hi'' ''hello'' ''sess-1'' 3 demo_world)
       = Inr ''OK''
   \<and> list_ex (is_submission ''hello'' ''downloadText'' 4)
        (new_requests demo_world
           (snd (enqueueOfflinePurviewTasksAsync ''token'' (Some ''abc'') ''app'' ''app-id''
                   ''evaluateOffline'' ''evaluateOffline'' ''hi'' ''hello'' ''sess-1'' 3
                   demo_world)))
   \<and> length (new_requests demo_world
           (snd (enqueueOfflinePurviewTasksAsync ''token'' (Some ''abc'') ''app'' ''app-id''
                   ''evaluateOffline'' ''evaluateOffline'' ''hi'' ''hello'' ''sess-1'' 3
                   demo_world))) = 2"
proof -
  let ?run = "\<lambda>up down. enqueueOfflinePurviewTasksAsync ''token'' (Some ''abc'') ''app''
                ''app-id'' up down ''hi'' ''hello'' ''sess-1'' 3 demo_world"
  have range: "\<bar>3 :: int\<bar> < 2 ^ 53"
    by simp
  have modes: "''evaluateInline'' \<noteq> ''evaluateOffline'' \<and> ''skip'' \<noteq> ''evaluateOffline''"
    by simp
  have ok1: "\<not> isl (fst (?run ''evaluateOffline'' ''skip''))"
    and ok2: "\<not> isl (fst (?run ''evaluateOffline'' ''evaluateOffline''))"
    by (simp_all add: demo_run_returns)
  note neither = enqueue_submissions
        [where uploadTextMode = "''evaluateInline''" and downloadTextMode = "''skip''"
           and accessToken = "''token''" and etag = "Some ''abc''" and name = "''app''"
           and applicationId = "''app-id''" and prompt = "''hi''" and response = "''hello''"
           and sessionId = "''sess-1''" and sequenceNo = 3 and w = demo_world,
         OF range,
         THEN conjunct2, THEN conjunct2, THEN conjunct1, THEN mp, OF modes]
  note upload = enqueue_submissions
        [where uploadTextMode = "''evaluateOffline''" and downloadTextMode = "''skip''"
           and accessToken = "''token''" and etag = "Some ''abc''" and name = "''app''"
           and applicationId = "''app-id''" and prompt = "''hi''" and response = "''hello''"
           and sessionId = "''sess-1''" and sequenceNo = 3 and w = demo_world,
         OF range,
         THEN conjunct2, THEN conjunct2, THEN conjunct2, THEN mp, OF ok1]
  note both = enqueue_submissions
        [where uploadTextMode = "''evaluateOffline''" and downloadTextMode = "''evaluateOffline''"
           and accessToken = "''token''" and etag = "Some ''abc''" and name = "''app''"
           and applicationId = "''app-id''" and prompt = "''hi''" and response = "''hello''"
           and sessionId = "''sess-1''" and sequenceNo = 3 and w = demo_world,
         OF range,
         THEN conjunct2, THEN conjunct2, THEN conjunct2, THEN mp, OF ok2]
  from range neither upload both show ?thesis by simp
qed

theorem first_submission_failure_aborts_witness:
  "fst (submit ''token'' (Some ''abc'') ''app'' ''app-id'' ''hi'' ''uploadText'' 3 ''sess-1''
          forbidden_world) = Inl (Error ''API call failed with status 403: Forbidden'')
   \<and> enqueueOfflinePurviewTasksAsync ''token'' (Some ''abc'') ''app'' ''app-id''
         ''evaluateOffline'' ''evaluateOffline'' ''hi'' ''hello'' ''sess-1'' 3 forbidden_world
       = (Inl (Error ''API call failed with status 403: Forbidden''),
          snd (submit ''token'' (Some ''abc'') ''app'' ''app-id'' ''hi'' ''uploadText'' 3
                 ''sess-1'' forbidden_world))
   \<and> length (new_requests forbidden_world
         (snd (submit ''token'' (Some ''abc'') ''app'' ''app-id'' ''hi'' ''uploadText'' 3
                 ''sess-1'' forbidden_world))) \<le> 1"
proof -
  let ?first = "submit ''token'' (Some ''abc'') ''app'' ''app-id'' ''hi'' ''uploadText'' 3
                  ''sess-1'' forbidden_world"
  have first: "?first = (Inl (Error ''API call failed with status 403: Forbidden''), snd ?first)"
    using forbidden_upload by (simp add: prod_eq_iff)
  show ?thesis
    using forbidden_upload
      first_submission_failure_aborts
        [OF refl first, where downloadTextMode = "''evaluateOffline''" and response = "''hello''"]
    by simp
qed

end
